theory Spec2Isabelle
  imports Main "HOL-Library.Word"
begin

section \<open>The consensus poller of proxyd (consensus_poller.go)\<close>

text \<open>
  The development embeds \<^verbatim>\<open>optimism/proxyd/consensus_poller.go\<close>. A \<^verbatim>\<open>*Backend\<close> is
  the address of a backend object; \<^verbatim>\<open>hexutil.Uint64\<close> is a 64-bit word, so
  \<^verbatim>\<open>proposedBlock -= 1\<close> wraps around at zero; \<^verbatim>\<open>time.Time\<close> is an integer instant.
  A run-time panic of Go (a failed type assertion, a nil dereference,
  \<^verbatim>\<open>hexutil.MustDecodeUint64\<close> on bad input) is the value \<open>Panic\<close>; a loop that does not
  return is the value \<open>None\<close>.
\<close>

type_synonym backend = nat
type_synonym uint64 = "64 word"
type_synonym time = int

datatype 'a exec = Panic | Return 'a

subsection \<open>Data\<close>

record backend_state =
  latestBlockNumber :: uint64
  latestBlockHash :: string
  lastUpdate :: time
  bannedUntil :: time

record BackendGroup =
  Backends :: "backend list"

text \<open>
  Modelled from the spec: the \<^verbatim>\<open>ConsensusTracker\<close> interface and its in-memory
  implementation are declared outside this file. The spec says the tracker "holds
  exactly one value, the last resolved consensus height, with atomic get/set semantics",
  so the field \<open>tracker\<close> is that value.
\<close>

record ConsensusPoller =
  backendGroup :: BackendGroup
  backendState :: "backend \<rightharpoonup> backend_state"
  consensusGroup :: "backend list"
  tracker :: uint64

definition tracker_GetConsensusBlockNumber :: "uint64 \<Rightarrow> uint64" where
  "tracker_GetConsensusBlockNumber t = t"

definition tracker_SetConsensusBlockNumber :: "uint64 \<Rightarrow> uint64 \<Rightarrow> uint64" where
  "tracker_SetConsensusBlockNumber t n = n"

subsection \<open>What the poller consumes from outside\<close>

text \<open>
  The value held by an \<^verbatim>\<open>interface{}\<close> after JSON decoding: nil, a bool, a float64
  (its payload is never inspected here), a string, a slice or a
  \<^verbatim>\<open>map[string]interface{}\<close>.
\<close>

datatype json =
    JNull
  | JBool bool
  | JNumber int
  | JString string
  | JArray "json list"
  | JObject "(string \<times> json) list"

text \<open>The outcome of \<^verbatim>\<open>be.ForwardRPC\<close>: an error, or the \<^verbatim>\<open>Result\<close> of the response.\<close>

datatype rpc_reply = RPCError string | RPCResult json

text \<open>
  The capabilities of a backend (\<^verbatim>\<open>IsRateLimited\<close>, \<^verbatim>\<open>Online\<close>, \<^verbatim>\<open>Name\<close>,
  \<^verbatim>\<open>ForwardRPC\<close> for \<^verbatim>\<open>eth_getBlockByNumber\<close> with the given block parameter) and the
  clock, as one snapshot that holds for the duration of a cycle.
\<close>

record env =
  IsRateLimited :: "backend \<Rightarrow> bool"
  Online :: "backend \<Rightarrow> bool"
  Name :: "backend \<Rightarrow> string"
  ForwardRPC :: "backend \<Rightarrow> string \<Rightarrow> rpc_reply"
  Now :: time

subsection \<open>hexutil: the quantity encoding of go-ethereum\<close>

text \<open>
  \<^verbatim>\<open>hexutil.DecodeUint64\<close>: the input must start with \<^verbatim>\<open>0x\<close> or \<^verbatim>\<open>0X\<close>, have at least
  one digit, have no leading zero unless it is the single digit zero, and
  \<^verbatim>\<open>strconv.ParseUint(raw, 16, 64)\<close> must accept the digits. \<open>None\<close> is the error
  return; \<^verbatim>\<open>MustDecodeUint64\<close> panics on it.
\<close>

definition hexVal :: "char \<Rightarrow> nat option" where
  "hexVal c =
     (let n = (of_char c :: nat) in
      if 48 \<le> n \<and> n \<le> 57 then Some (n - 48)
      else if 97 \<le> n \<and> n \<le> 102 then Some (n - 87)
      else if 65 \<le> n \<and> n \<le> 70 then Some (n - 55)
      else None)"

text \<open>
  The digit loop of \<^verbatim>\<open>strconv.ParseUint\<close> for base 16 and 64 bits, on the machine word
  as the library has it: the cutoff \<open>2 ^ 60\<close> is the first value whose product with 16
  overflows, and the sum with the digit is checked for wrap-around.
\<close>

fun parseUint16 :: "uint64 \<Rightarrow> string \<Rightarrow> uint64 option" where
  "parseUint16 n [] = Some n"
| "parseUint16 n (c # cs) =
     (case hexVal c of
        None \<Rightarrow> None
      | Some d \<Rightarrow>
          if n \<ge> 0x1000000000000000 then None
          else let n16 = n * 16; n1 = n16 + of_nat d
               in if n1 < n16 then None else parseUint16 n1 cs)"

definition has0xPrefix :: "string \<Rightarrow> bool" where
  "has0xPrefix input =
     (case input of
        a # b # _ \<Rightarrow> a = CHR ''0'' \<and> (b = CHR ''x'' \<or> b = CHR ''X'')
      | _ \<Rightarrow> False)"

definition checkNumber :: "string \<Rightarrow> string option" where
  "checkNumber input =
     (if length input = 0 then None
      else if \<not> has0xPrefix input then None
      else let raw = drop 2 input in
        if length raw = 0 then None
        else if length raw > 1 \<and> hd raw = CHR ''0'' then None
        else Some raw)"

definition DecodeUint64 :: "string \<Rightarrow> uint64 option" where
  "DecodeUint64 input =
     (case checkNumber input of
        None \<Rightarrow> None
      | Some raw \<Rightarrow> parseUint16 0 raw)"

definition MustDecodeUint64 :: "string \<Rightarrow> uint64 exec" where
  "MustDecodeUint64 input =
     (case DecodeUint64 input of None \<Rightarrow> Panic | Some n \<Rightarrow> Return n)"

text \<open>
  \<^verbatim>\<open>hexutil.EncodeUint64\<close>, which \<^verbatim>\<open>hexutil.Uint64.String\<close> calls: \<^verbatim>\<open>0x\<close> followed by
  the lower-case hexadecimal digits, without leading zeros.
\<close>

definition hexDigit :: "nat \<Rightarrow> char" where
  "hexDigit d = (if d < 10 then char_of (48 + d) else char_of (87 + d))"

fun hexDigits :: "nat \<Rightarrow> string" where
  "hexDigits n = (if n < 16 then [hexDigit n] else hexDigits (n div 16) @ [hexDigit (n mod 16)])"

declare hexDigits.simps [simp del]

definition EncodeUint64 :: "uint64 \<Rightarrow> string" where
  "EncodeUint64 i = ''0x'' @ hexDigits (unat i)"

subsection \<open>Accessors\<close>

text \<open>Go's built-in \<^verbatim>\<open>copy(dst, src)\<close>: it copies \<open>min (len dst) (len src)\<close> elements.\<close>

definition copy_slice :: "'a list \<Rightarrow> 'a list \<Rightarrow> 'a list" where
  "copy_slice dst src = take (length dst) src @ drop (length src) dst"

text \<open>
  \<^verbatim>\<open>GetConsensusGroup\<close>: the result is a slice of pointers, \<open>None\<close> being the nil
  pointer that \<^verbatim>\<open>make\<close> fills a new slice with.
\<close>

definition GetConsensusGroup :: "ConsensusPoller \<Rightarrow> backend option list" where
  "GetConsensusGroup cp =
     (let g = replicate (length (Backends (backendGroup cp))) None
      in copy_slice g (map Some (consensusGroup cp)))"

definition GetConsensusBlockNumber :: "ConsensusPoller \<Rightarrow> uint64" where
  "GetConsensusBlockNumber cp = tracker_GetConsensusBlockNumber (tracker cp)"

text \<open>
  \<^verbatim>\<open>cp.backendState[be]\<close> is a map of pointers: a backend without an entry gives the
  nil pointer, and reading a field through it panics.
\<close>

definition getBackendState :: "ConsensusPoller \<Rightarrow> backend \<Rightarrow> (uint64 \<times> string) exec" where
  "getBackendState cp be =
     (case backendState cp be of
        None \<Rightarrow> Panic
      | Some bs \<Rightarrow> Return (latestBlockNumber bs, latestBlockHash bs))"

definition setBackendState ::
  "time \<Rightarrow> ConsensusPoller \<Rightarrow> backend \<Rightarrow> uint64 \<Rightarrow> string \<Rightarrow> (bool \<times> ConsensusPoller) exec" where
  "setBackendState now cp be blockNumber blockHash =
     (case backendState cp be of
        None \<Rightarrow> Panic
      | Some bs \<Rightarrow>
          let changed = (latestBlockHash bs \<noteq> blockHash);
              bs' = bs\<lparr>latestBlockNumber := blockNumber,
                       latestBlockHash := blockHash,
                       lastUpdate := now\<rparr>
          in Return (changed, cp\<lparr>backendState := (backendState cp)(be \<mapsto> bs')\<rparr>))"

subsection \<open>fetchBlock\<close>

datatype fetch_error = TransportError string | UnexpectedResponseType string

text \<open>
  \<^verbatim>\<open>jsonMap["number"].(string)\<close> and \<^verbatim>\<open>jsonMap["hash"].(string)\<close> are type assertions
  without the second result: on a missing key (the nil interface) or on a value that is
  not a string they panic.
\<close>

definition assertString :: "json option \<Rightarrow> string exec" where
  "assertString v = (case v of Some (JString s) \<Rightarrow> Return s | _ \<Rightarrow> Panic)"

definition fetchBlock ::
  "env \<Rightarrow> backend \<Rightarrow> string \<Rightarrow> (fetch_error + uint64 \<times> string) exec" where
  "fetchBlock e be block =
     (case ForwardRPC e be block of
        RPCError err \<Rightarrow> Return (Inl (TransportError err))
      | RPCResult res \<Rightarrow>
          (case res of
             JObject jsonMap \<Rightarrow>
               (case assertString (map_of jsonMap ''number'') of
                  Panic \<Rightarrow> Panic
                | Return s \<Rightarrow>
                    (case MustDecodeUint64 s of
                       Panic \<Rightarrow> Panic
                     | Return blockNumber \<Rightarrow>
                         (case assertString (map_of jsonMap ''hash'') of
                            Panic \<Rightarrow> Panic
                          | Return blockHash \<Rightarrow> Return (Inr (blockNumber, blockHash)))))
           | _ \<Rightarrow>
               Return (Inl (UnexpectedResponseType
                 (''unexpected response type checking consensus on backend '' @ Name e be)))))"

subsection \<open>UpdateBackend: the refresh of one backend\<close>

text \<open>
  \<^verbatim>\<open>bs.bannedUntil\<close> is read through the pointer found in the map, so a backend
  without an entry panics. The metric and the log lines leave the poller unchanged.
\<close>

definition UpdateBackend :: "env \<Rightarrow> ConsensusPoller \<Rightarrow> backend \<Rightarrow> ConsensusPoller exec" where
  "UpdateBackend e cp be =
     (case backendState cp be of
        None \<Rightarrow> Panic
      | Some bs \<Rightarrow>
          if Now e < bannedUntil bs then Return cp
          else if IsRateLimited e be \<or> \<not> Online e be then Return cp
          else
            (case fetchBlock e be ''latest'' of
               Panic \<Rightarrow> Panic
             | Return (Inl err) \<Rightarrow> Return cp
             | Return (Inr (latestNumber, latestHash)) \<Rightarrow>
                 (case setBackendState (Now e) cp be latestNumber latestHash of
                    Panic \<Rightarrow> Panic
                  | Return (changed, cp') \<Rightarrow> Return cp')))"

subsection \<open>UpdateBackendGroupConsensus: the group-resolution cycle\<close>

text \<open>
  The first loop of the cycle: the scan for \<^verbatim>\<open>lowestBlock\<close> and \<^verbatim>\<open>lowestBlockHash\<close>,
  both starting from their zero values.
\<close>

fun lowestBlockScan ::
  "ConsensusPoller \<Rightarrow> backend list \<Rightarrow> uint64 \<times> string \<Rightarrow> (uint64 \<times> string) exec" where
  "lowestBlockScan cp [] acc = Return acc"
| "lowestBlockScan cp (be # bes) (lowestBlock, lowestBlockHash) =
     (case getBackendState cp be of
        Panic \<Rightarrow> Panic
      | Return (backendLatestBlockNumber, backendLatestBlockHash) \<Rightarrow>
          if lowestBlock = 0 \<or> backendLatestBlockNumber < lowestBlock
          then lowestBlockScan cp bes (backendLatestBlockNumber, backendLatestBlockHash)
          else lowestBlockScan cp bes (lowestBlock, lowestBlockHash))"

text \<open>
  The filter at the head of the inner loop:
  \<^verbatim>\<open>be.IsRateLimited() || !be.Online() || time.Now().Before(cp.backendState[be].bannedUntil)\<close>,
  evaluated left to right.
\<close>

definition isFiltered :: "env \<Rightarrow> ConsensusPoller \<Rightarrow> backend \<Rightarrow> bool exec" where
  "isFiltered e cp be =
     (if IsRateLimited e be \<or> \<not> Online e be then Return True
      else case backendState cp be of
             None \<Rightarrow> Panic
           | Some bs \<Rightarrow> Return (Now e < bannedUntil bs))"

text \<open>
  The variables that the inner loop reads and writes. The two lists of names only feed
  the last log line and are left out; \<open>broken\<close> decides whether the
  \<^verbatim>\<open>consensus broken\<close> event is logged.
\<close>

record round_state =
  proposedBlockHash :: string
  broken :: bool
  consensusBackends :: "backend list"

text \<open>
  The inner loop over the pool, for the proposed block \<open>proposedBlock\<close> and the
  previously published height \<open>cur\<close>. The first component of the result is
  \<^verbatim>\<open>allAgreed\<close>; the \<^verbatim>\<open>break\<close> is the branch that returns \<open>False\<close>.
\<close>

fun checkBackends ::
  "env \<Rightarrow> ConsensusPoller \<Rightarrow> uint64 \<Rightarrow> uint64 \<Rightarrow> backend list \<Rightarrow> round_state
   \<Rightarrow> (bool \<times> round_state) exec" where
  "checkBackends e cp cur proposedBlock [] st = Return (True, st)"
| "checkBackends e cp cur proposedBlock (be # bes) st =
     (case isFiltered e cp be of
        Panic \<Rightarrow> Panic
      | Return True \<Rightarrow> checkBackends e cp cur proposedBlock bes st
      | Return False \<Rightarrow>
          (case fetchBlock e be (EncodeUint64 proposedBlock) of
             Panic \<Rightarrow> Panic
           | Return (Inl err) \<Rightarrow> checkBackends e cp cur proposedBlock bes st
           | Return (Inr (actualBlockNumber, actualBlockHash)) \<Rightarrow>
               let st1 = (if proposedBlockHash st = [] then st\<lparr>proposedBlockHash := actualBlockHash\<rparr>
                          else st);
                   blocksDontMatch = (actualBlockNumber \<noteq> proposedBlock
                                      \<or> actualBlockHash \<noteq> proposedBlockHash st1)
               in if blocksDontMatch
                  then Return (False,
                         if cur \<ge> actualBlockNumber then st1\<lparr>broken := True\<rparr> else st1)
                  else checkBackends e cp cur proposedBlock bes
                         (st1\<lparr>consensusBackends := consensusBackends st1 @ [be]\<rparr>)))"

text \<open>
  The loop \<^verbatim>\<open>for !hasConsensus\<close>. Nothing bounds the number of its rounds, so it is a
  partial function: \<open>None\<close> is the loop that never leaves.
\<close>

partial_function (option) seekConsensus ::
  "env \<Rightarrow> ConsensusPoller \<Rightarrow> uint64 \<Rightarrow> uint64 \<Rightarrow> round_state
   \<Rightarrow> (uint64 \<times> round_state) exec option" where
  "seekConsensus e cp cur proposedBlock st =
     (case checkBackends e cp cur proposedBlock (Backends (backendGroup cp))
             (st\<lparr>consensusBackends := []\<rparr>) of
        Panic \<Rightarrow> Some Panic
      | Return (allAgreed, st') \<Rightarrow>
          if allAgreed then Some (Return (proposedBlock, st'))
          else seekConsensus e cp cur (proposedBlock - 1) (st'\<lparr>proposedBlockHash := []\<rparr>))"

declare seekConsensus.simps [code]

text \<open>
  The rest of the cycle from \<^verbatim>\<open>broken := false\<close> on: the loop, then the publication
  of the height through the tracker and of the group. The second component of the
  result says whether the \<^verbatim>\<open>consensus broken\<close> event was logged.
\<close>

definition resolveFrom ::
  "env \<Rightarrow> ConsensusPoller \<Rightarrow> uint64 \<Rightarrow> uint64 \<Rightarrow> string
   \<Rightarrow> (ConsensusPoller \<times> bool) exec option" where
  "resolveFrom e cp cur proposedBlock proposedHash =
     (case seekConsensus e cp cur proposedBlock
             \<lparr>proposedBlockHash = proposedHash, broken = False, consensusBackends = []\<rparr> of
        None \<Rightarrow> None
      | Some Panic \<Rightarrow> Some Panic
      | Some (Return (finalBlock, st)) \<Rightarrow>
          Some (Return
            (cp\<lparr>consensusGroup := consensusBackends st,
                tracker := tracker_SetConsensusBlockNumber (tracker cp) finalBlock\<rparr>,
             broken st)))"

definition UpdateBackendGroupConsensus ::
  "env \<Rightarrow> ConsensusPoller \<Rightarrow> (ConsensusPoller \<times> bool) exec option" where
  "UpdateBackendGroupConsensus e cp =
     (let currentConsensusBlockNumber = GetConsensusBlockNumber cp in
      case lowestBlockScan cp (Backends (backendGroup cp)) (0, []) of
        Panic \<Rightarrow> Some Panic
      | Return (lowestBlock, lowestBlockHash) \<Rightarrow>
          if lowestBlock = 0 then Some (Return (cp, False))
          else resolveFrom e cp currentConsensusBlockNumber lowestBlock lowestBlockHash)"

subsection \<open>The rounds of the loop, for stating properties\<close>

text \<open>
  One failed round: the inner loop left with \<^verbatim>\<open>allAgreed = false\<close>, and the loop goes
  on with the block below and an empty hash. \<open>None\<close> when the round agrees or panics.
\<close>

definition nextRound ::
  "env \<Rightarrow> ConsensusPoller \<Rightarrow> uint64 \<Rightarrow> uint64 \<times> round_state \<Rightarrow> (uint64 \<times> round_state) option" where
  "nextRound e cp cur s =
     (case checkBackends e cp cur (fst s) (Backends (backendGroup cp))
             ((snd s)\<lparr>consensusBackends := []\<rparr>) of
        Return (False, st') \<Rightarrow> Some (fst s - 1, st'\<lparr>proposedBlockHash := []\<rparr>)
      | _ \<Rightarrow> None)"

text \<open>The proposed block and the variables at the start of round \<open>k\<close>, after \<open>k\<close> failed rounds.\<close>

fun roundStart ::
  "env \<Rightarrow> ConsensusPoller \<Rightarrow> uint64 \<Rightarrow> nat \<Rightarrow> uint64 \<times> round_state
   \<Rightarrow> (uint64 \<times> round_state) option" where
  "roundStart e cp cur 0 s = Some s"
| "roundStart e cp cur (Suc k) s =
     (case nextRound e cp cur s of
        None \<Rightarrow> None
      | Some s' \<Rightarrow> roundStart e cp cur k s')"

text \<open>
  The backend at which a round breaks, with the height and the hash it answered:
  the first backend of the pool that passes the filter, answers without error and whose
  answer differs from the proposed block or from the proposed hash (the hash of the first
  answer when the proposed hash is empty). \<open>Return None\<close> when no backend disagrees.
\<close>

fun disagreement ::
  "env \<Rightarrow> ConsensusPoller \<Rightarrow> uint64 \<Rightarrow> string \<Rightarrow> backend list
   \<Rightarrow> (backend \<times> uint64 \<times> string) option exec" where
  "disagreement e cp proposedBlock proposedHash [] = Return None"
| "disagreement e cp proposedBlock proposedHash (be # bes) =
     (case isFiltered e cp be of
        Panic \<Rightarrow> Panic
      | Return True \<Rightarrow> disagreement e cp proposedBlock proposedHash bes
      | Return False \<Rightarrow>
          (case fetchBlock e be (EncodeUint64 proposedBlock) of
             Panic \<Rightarrow> Panic
           | Return (Inl err) \<Rightarrow> disagreement e cp proposedBlock proposedHash bes
           | Return (Inr (n, h)) \<Rightarrow>
               let ph = (if proposedHash = [] then h else proposedHash)
               in if n \<noteq> proposedBlock \<or> h \<noteq> ph then Return (Some (be, n, h))
                  else disagreement e cp proposedBlock ph bes))"

text \<open>The state with which the cycle enters its loop.\<close>

definition initialRound :: "string \<Rightarrow> round_state" where
  "initialRound proposedHash =
     \<lparr>proposedBlockHash = proposedHash, broken = False, consensusBackends = []\<rparr>"

subsection \<open>Concrete pollers and backends\<close>

definition blockReply :: "string \<Rightarrow> string \<Rightarrow> rpc_reply" where
  "blockReply number hash = RPCResult (JObject [(''number'', JString number), (''hash'', JString hash)])"

definition stateAt :: "uint64 \<Rightarrow> string \<Rightarrow> backend_state" where
  "stateAt n h = \<lparr>latestBlockNumber = n, latestBlockHash = h, lastUpdate = 0, bannedUntil = 0\<rparr>"

definition healthy :: "(backend \<Rightarrow> string \<Rightarrow> rpc_reply) \<Rightarrow> env" where
  "healthy rpc =
     \<lparr>IsRateLimited = (\<lambda>be. False), Online = (\<lambda>be. True), Name = (\<lambda>be. ''node''),
      ForwardRPC = rpc, Now = 1000\<rparr>"

definition poller :: "backend list \<Rightarrow> (backend \<rightharpoonup> backend_state) \<Rightarrow> backend list \<Rightarrow> uint64
  \<Rightarrow> ConsensusPoller" where
  "poller pool states grp height =
     \<lparr>backendGroup = \<lparr>Backends = pool\<rparr>, backendState = states, consensusGroup = grp,
      tracker = height\<rparr>"

text \<open>A backend that answers every query with the block of the requested height.\<close>

definition echoReply :: "string \<Rightarrow> string \<Rightarrow> rpc_reply" where
  "echoReply hash block = blockReply block hash"

text \<open>Two backends on different chains: same heights, different hashes everywhere.\<close>

definition forkedEnv :: env where
  "forkedEnv = healthy (\<lambda>be. if be = 0 then echoReply ''0xaa'' else echoReply ''0xbb'')"

definition forkedPoller :: ConsensusPoller where
  "forkedPoller = poller [0, 2] [0 \<mapsto> stateAt 1 ''0xaa'', 2 \<mapsto> stateAt 1 ''0xbb''] [] 0"

text \<open>One backend that answers the query for block 5 with another block.\<close>

definition strayEnv :: "string \<Rightarrow> env" where
  "strayEnv number =
     healthy (\<lambda>be block. if block = ''0x5'' then blockReply number ''0xff'' else echoReply ''0xaa'' block)"

definition strayPoller :: "uint64 \<Rightarrow> ConsensusPoller" where
  "strayPoller height = poller [0] [0 \<mapsto> stateAt 5 ''0xaa''] [0] height"

text \<open>A live backend 0 at block 2 and an offline backend 2 whose last state is block 1.\<close>

definition laggingEnv :: env where
  "laggingEnv = (healthy (\<lambda>be. echoReply ''0xaa''))\<lparr>Online := (\<lambda>be. be = 0)\<rparr>"

definition laggingPoller :: ConsensusPoller where
  "laggingPoller = poller [0, 2] [0 \<mapsto> stateAt 2 ''0xaa'', 2 \<mapsto> stateAt 1 ''0xaa''] [] 0"

text \<open>A pool without data whose only backend, a member of the published group, is offline.\<close>

definition coldEnv :: env where
  "coldEnv = (healthy (\<lambda>be. echoReply ''0xaa''))\<lparr>Online := (\<lambda>be. False)\<rparr>"

definition coldPoller :: ConsensusPoller where
  "coldPoller = poller [0] [0 \<mapsto> stateAt 0 []] [0] 7"

text \<open>Three backends at the same block, the third one rate limited.\<close>

definition agreedEnv :: env where
  "agreedEnv = (healthy (\<lambda>be. echoReply ''0xaa''))\<lparr>IsRateLimited := (\<lambda>be. be = 3)\<rparr>"

definition agreedPoller :: ConsensusPoller where
  "agreedPoller =
     poller [0, 2, 3] [0 \<mapsto> stateAt 5 ''0xaa'', 2 \<mapsto> stateAt 5 ''0xaa'', 3 \<mapsto> stateAt 5 ''0xaa'']
       [] 3"

text \<open>A backend that answers the query for block 5 and times out on every other query.\<close>

definition flakyEnv :: env where
  "flakyEnv =
     healthy (\<lambda>be block. if block = ''0x5'' then blockReply ''0x5'' ''0xff'' else RPCError ''timeout'')"

text \<open>Three backends with heights 5, 0 and 7.\<close>

definition mixedStates :: "backend \<rightharpoonup> backend_state" where
  "mixedStates = [0 \<mapsto> stateAt 5 ''0xa5'', 1 \<mapsto> stateAt 0 [], 2 \<mapsto> stateAt 7 ''0xa7'']"

section \<open>Properties\<close>

subsection \<open>The hexadecimal encoding and its decoder\<close>

lemma hexVal_hexDigit: "d < 16 \<Longrightarrow> hexVal (hexDigit d) = Some d"
  by (auto simp: hexVal_def hexDigit_def Let_def)

lemma hexDigit_0: "hexDigit 0 = CHR ''0''"
  by code_simp

lemma hexDigit_zero_iff: "d < 16 \<Longrightarrow> hexDigit d = CHR ''0'' \<longleftrightarrow> d = 0"
proof -
  assume "d < 16"
  then have "hexVal (hexDigit d) = Some d" by (rule hexVal_hexDigit)
  moreover have "hexVal CHR ''0'' = Some 0" by (simp add: hexVal_def)
  ultimately show ?thesis using hexDigit_0 by auto
qed

lemma parseUint16_append:
  "parseUint16 n (xs @ ys) = (case parseUint16 n xs of None \<Rightarrow> None | Some m \<Rightarrow> parseUint16 m ys)"
  by (induction xs arbitrary: n) (auto simp: Let_def split: option.splits)

lemma unat_of_nat_small: "m < 2 ^ 64 \<Longrightarrow> unat (of_nat m :: uint64) = m"
  by (rule of_nat_inverse) simp_all

lemma parseUint16_digit:
  assumes "m < 2 ^ 60" "d < 16"
  shows "parseUint16 (of_nat m) [hexDigit d] = Some (of_nat (m * 16 + d))"
proof -
  have m64: "m < 2 ^ 64" using assms(1) by (rule less_trans) simp
  have um: "unat (of_nat m :: uint64) = m"
    using m64 by (rule unat_of_nat_small)
  have nge: "\<not> (0x1000000000000000 :: uint64) \<le> of_nat m"
    using assms(1) um by (simp add: word_le_nat_alt)
  have "m * 16 < 2 ^ 64" using assms(1) by simp
  then have "unat (of_nat (m * 16) :: uint64) = m * 16" by (rule unat_of_nat_small)
  then have u16: "unat (of_nat m * 16 :: uint64) = m * 16" by simp
  have "m * 16 + d < 2 ^ 64" using assms by simp
  then have "unat (of_nat (m * 16 + d) :: uint64) = m * 16 + d" by (rule unat_of_nat_small)
  then have usum: "unat (of_nat m * 16 + of_nat d :: uint64) = m * 16 + d" by simp
  have nlt: "\<not> (of_nat m * 16 + of_nat d :: uint64) < of_nat m * 16"
    by (simp add: word_less_nat_alt u16 usum)
  show ?thesis
    using nge nlt by (simp add: hexVal_hexDigit [OF assms(2)] Let_def)
qed

lemma parseUint16_hexDigits:
  "n < 2 ^ 64 \<Longrightarrow> parseUint16 0 (hexDigits n) = Some (of_nat n)"
proof (induction n rule: hexDigits.induct)
  case (1 n)
  show ?case
  proof (cases "n < 16")
    case True
    have "parseUint16 (of_nat 0) [hexDigit n] = Some (of_nat (0 * 16 + n))"
      by (rule parseUint16_digit) (simp_all add: True)
    then show ?thesis using True by (simp add: hexDigits.simps [of n])
  next
    case False
    have small: "n div 16 < 2 ^ 60" using "1.prems" by simp
    then have "n div 16 < 2 ^ 64" by (rule less_trans) simp
    then have ih: "parseUint16 0 (hexDigits (n div 16)) = Some (of_nat (n div 16))"
      using "1.IH" False by simp
    have "parseUint16 (of_nat (n div 16)) [hexDigit (n mod 16)] = Some (of_nat (n div 16 * 16 + n mod 16))"
      by (rule parseUint16_digit [OF small]) simp
    then show ?thesis
      using False ih by (simp add: hexDigits.simps [of n] parseUint16_append)
  qed
qed

lemma hexDigits_nonempty: "hexDigits n \<noteq> []"
  by (subst hexDigits.simps) simp

lemma hexDigits_leading:
  "length (hexDigits n) > 1 \<Longrightarrow> hd (hexDigits n) \<noteq> CHR ''0''"
proof (induction n rule: hexDigits.induct)
  case (1 n)
  show ?case
  proof (cases "n < 16")
    case True
    then show ?thesis using "1.prems" by (simp add: hexDigits.simps [of n])
  next
    case False
    note ge = this
    show ?thesis
    proof (cases "n div 16 < 16")
      case True
      have "n div 16 \<noteq> 0" using ge by simp
      then have "hexDigit (n div 16) \<noteq> CHR ''0''" using True by (simp add: hexDigit_zero_iff)
      then show ?thesis using ge True
        by (simp add: hexDigits.simps [of n] hexDigits.simps [of "n div 16"])
    next
      case False
      then have "length (hexDigits (n div 16)) > 1"
        by (simp add: hexDigits.simps [of "n div 16"] hexDigits_nonempty)
      then have "hd (hexDigits (n div 16)) \<noteq> CHR ''0''" using "1.IH" ge by simp
      then show ?thesis using ge
        by (simp add: hexDigits.simps [of n] hexDigits_nonempty)
    qed
  qed
qed

text \<open>Decoding what \<^verbatim>\<open>Uint64.String\<close> printed gives the number back.\<close>

lemma DecodeUint64_EncodeUint64: "DecodeUint64 (EncodeUint64 i) = Some i"
proof -
  have "unat i < 2 ^ 64" using unsigned_less [of i] by simp
  then have "parseUint16 0 (hexDigits (unat i)) = Some i"
    by (simp add: parseUint16_hexDigits)
  moreover have "checkNumber (EncodeUint64 i) = Some (hexDigits (unat i))"
    using hexDigits_leading [of "unat i"] hexDigits_nonempty [of "unat i"]
    by (auto simp: checkNumber_def EncodeUint64_def has0xPrefix_def Let_def)
  ultimately show ?thesis by (simp add: DecodeUint64_def)
qed

subsection \<open>fetchBlock\<close>

lemma fetchBlock_blockReply:
  "ForwardRPC e be block = blockReply number hash \<Longrightarrow>
   fetchBlock e be block =
     (case DecodeUint64 number of None \<Rightarrow> Panic | Some n \<Rightarrow> Return (Inr (n, hash)))"
  by (simp add: fetchBlock_def blockReply_def assertString_def MustDecodeUint64_def
      split: option.splits)

lemma fetchBlock_echo:
  "ForwardRPC e be (EncodeUint64 p) = echoReply hash (EncodeUint64 p) \<Longrightarrow>
   fetchBlock e be (EncodeUint64 p) = Return (Inr (p, hash))"
  by (simp add: fetchBlock_blockReply echoReply_def DecodeUint64_EncodeUint64)

subsection \<open>The scan for the lowest block\<close>

lemma lowestBlockScan_states:
  "lowestBlockScan cp bes acc = Return r \<Longrightarrow> be \<in> set bes \<Longrightarrow> backendState cp be \<noteq> None"
proof (induction bes arbitrary: acc)
  case Nil
  then show ?case by simp
next
  case (Cons b bes)
  obtain lb lh where acc: "acc = (lb, lh)" by (cases acc)
  from Cons.prems(1) obtain bs where bs: "backendState cp b = Some bs"
    by (auto simp: acc getBackendState_def split: option.splits)
  show ?case
  proof (cases "be = b")
    case True
    then show ?thesis using bs by simp
  next
    case False
    then have "be \<in> set bes" using Cons.prems(2) by simp
    moreover from Cons.prems(1) obtain acc' where "lowestBlockScan cp bes acc' = Return r"
      by (auto simp: acc bs getBackendState_def split: if_splits)
    ultimately show ?thesis by (rule Cons.IH [rotated])
  qed
qed

lemma lowestBlockScan_all_zero:
  "\<forall>be \<in> set bes. \<exists>bs. backendState cp be = Some bs \<and> latestBlockNumber bs = 0 \<Longrightarrow>
   \<exists>h. lowestBlockScan cp bes (0, a) = Return (0, h)"
proof (induction bes arbitrary: a)
  case Nil
  then show ?case by simp
next
  case (Cons b bes)
  then obtain bs where bs: "backendState cp b = Some bs" "latestBlockNumber bs = 0" by auto
  have "\<exists>h. lowestBlockScan cp bes (0, latestBlockHash bs) = Return (0, h)"
    using Cons.prems by (intro Cons.IH) simp
  then show ?case by (simp add: getBackendState_def bs)
qed

subsection \<open>One round of the loop\<close>

lemma isFiltered_state:
  "backendState cp be \<noteq> None \<Longrightarrow> isFiltered e cp be \<noteq> Panic"
  by (auto simp: isFiltered_def)

text \<open>A round in which every backend is filtered out or fails to answer agrees on nothing.\<close>

lemma checkBackends_nobody:
  "\<forall>be \<in> set bes. isFiltered e cp be = Return True
      \<or> (isFiltered e cp be = Return False
          \<and> (\<exists>err. fetchBlock e be (EncodeUint64 p) = Return (Inl err))) \<Longrightarrow>
   checkBackends e cp cur p bes st = Return (True, st)"
  by (induction bes) auto

text \<open>A round in which every backend that is checked answers the proposed block.\<close>

lemma checkBackends_unanimous:
  "\<forall>be \<in> set bes. isFiltered e cp be = Return True
      \<or> (isFiltered e cp be = Return False
          \<and> fetchBlock e be (EncodeUint64 p) = Return (Inr (p, proposedBlockHash st))) \<Longrightarrow>
   checkBackends e cp cur p bes st =
     Return (True, st\<lparr>consensusBackends :=
       consensusBackends st @ filter (\<lambda>be. isFiltered e cp be = Return False) bes\<rparr>)"
proof (induction bes arbitrary: st)
  case Nil
  then show ?case by simp
next
  case (Cons b bes)
  show ?case
  proof (cases "isFiltered e cp b = Return True")
    case True
    then show ?thesis using Cons.prems Cons.IH [of st] by simp
  next
    case False
    then have nf: "isFiltered e cp b = Return False"
      and fb: "fetchBlock e b (EncodeUint64 p) = Return (Inr (p, proposedBlockHash st))"
      using Cons.prems by auto
    let ?st = "st\<lparr>consensusBackends := consensusBackends st @ [b]\<rparr>"
    have "checkBackends e cp cur p bes ?st =
      Return (True, ?st\<lparr>consensusBackends :=
        consensusBackends ?st @ filter (\<lambda>be. isFiltered e cp be = Return False) bes\<rparr>)"
      using Cons.prems by (intro Cons.IH) simp
    then have step: "checkBackends e cp cur p bes ?st =
      Return (True, st\<lparr>consensusBackends :=
        consensusBackends st @ b # filter (\<lambda>be. isFiltered e cp be = Return False) bes\<rparr>)"
      by simp
    show ?thesis
    proof (cases "proposedBlockHash st = []")
      case True
      then have same: "st\<lparr>proposedBlockHash := []\<rparr> = st" by simp
      show ?thesis using nf fb True step by (simp add: Let_def same)
    next
      case False
      then show ?thesis using nf fb step by (simp add: Let_def)
    qed
  qed
qed


text \<open>The round in terms of the backend at which it breaks.\<close>

lemma checkBackends_answer:
  assumes "isFiltered e cp b = Return False"
    and "fetchBlock e b (EncodeUint64 p) = Return (Inr (n, h))"
  shows "checkBackends e cp cur p (b # bes) st =
     (let st1 = (if proposedBlockHash st = [] then st\<lparr>proposedBlockHash := h\<rparr> else st)
      in if n \<noteq> p \<or> h \<noteq> proposedBlockHash st1
         then Return (False, if cur \<ge> n then st1\<lparr>broken := True\<rparr> else st1)
         else checkBackends e cp cur p bes (st1\<lparr>consensusBackends := consensusBackends st1 @ [b]\<rparr>))"
  by (simp add: assms Let_def)

lemma disagreement_answer:
  assumes "isFiltered e cp b = Return False"
    and "fetchBlock e b (EncodeUint64 p) = Return (Inr (n, h))"
  shows "disagreement e cp p ph0 (b # bes) =
     (let ph = (if ph0 = [] then h else ph0)
      in if n \<noteq> p \<or> h \<noteq> ph then Return (Some (b, n, h))
         else disagreement e cp p ph bes)"
  by (simp add: assms Let_def)

lemma checkBackends_disagreement:
  "(disagreement e cp p (proposedBlockHash st) bes = Panic \<longrightarrow>
      checkBackends e cp cur p bes st = Panic) \<and>
   (disagreement e cp p (proposedBlockHash st) bes = Return None \<longrightarrow>
      (\<exists>st'. checkBackends e cp cur p bes st = Return (True, st') \<and> broken st' = broken st)) \<and>
   (\<forall>be n h. disagreement e cp p (proposedBlockHash st) bes = Return (Some (be, n, h)) \<longrightarrow>
      (\<exists>st'. checkBackends e cp cur p bes st = Return (False, st')
             \<and> broken st' = (broken st \<or> n \<le> cur)))"
proof (induction bes arbitrary: st)
  case Nil
  show ?case by simp
next
  case (Cons b bes)
  show ?case
  proof (cases "isFiltered e cp b")
    case Panic
    then show ?thesis by simp
  next
    case (Return f)
    show ?thesis
    proof (cases f)
      case True
      then show ?thesis using Return Cons.IH [of st] by simp
    next
      case False
      have nf: "isFiltered e cp b = Return False" using Return False by simp
      show ?thesis
      proof (cases "fetchBlock e b (EncodeUint64 p)")
        case Panic
        then show ?thesis using nf by simp
      next
        case (Return r)
        show ?thesis
        proof (cases r)
          case (Inl err)
          then show ?thesis using nf Return Cons.IH [of st] by simp
        next
          case (Inr nh)
          obtain n h where nh: "nh = (n, h)" by (cases nh)
          define ph where "ph = (if proposedBlockHash st = [] then h else proposedBlockHash st)"
          define st1 where "st1 = (if proposedBlockHash st = [] then st\<lparr>proposedBlockHash := h\<rparr> else st)"
          have st1: "proposedBlockHash st1 = ph" "broken st1 = broken st"
            by (simp_all add: st1_def ph_def)
          have fb: "fetchBlock e b (EncodeUint64 p) = Return (Inr (n, h))"
            using Return Inr nh by simp
          have c: "checkBackends e cp cur p (b # bes) st =
              (if n \<noteq> p \<or> h \<noteq> ph
               then Return (False, if cur \<ge> n then st1\<lparr>broken := True\<rparr> else st1)
               else checkBackends e cp cur p bes
                      (st1\<lparr>consensusBackends := consensusBackends st1 @ [b]\<rparr>))"
            by (simp only: checkBackends_answer [OF nf fb] Let_def st1_def [symmetric] st1(1))
          have d: "disagreement e cp p (proposedBlockHash st) (b # bes) =
              (if n \<noteq> p \<or> h \<noteq> ph then Return (Some (b, n, h))
               else disagreement e cp p ph bes)"
            by (simp only: disagreement_answer [OF nf fb] Let_def ph_def [symmetric])
          show ?thesis
          proof (cases "n \<noteq> p \<or> h \<noteq> ph")
            case True
            then show ?thesis unfolding c d using st1 by simp
          next
            case False
            let ?st = "st1\<lparr>consensusBackends := consensusBackends st1 @ [b]\<rparr>"
            have "broken ?st = broken st" "proposedBlockHash ?st = ph" using st1 by simp_all
            then show ?thesis using Cons.IH [of ?st] False unfolding c d by simp
          qed
        qed
      qed
    qed
  qed
qed

lemma disagreement_consensusBackends:
  "disagreement e cp p (proposedBlockHash (st\<lparr>consensusBackends := cb\<rparr>)) bes =
   disagreement e cp p (proposedBlockHash st) bes"
  by simp

subsection \<open>The loop\<close>

lemma seekConsensus_agreed:
  "checkBackends e cp cur p (Backends (backendGroup cp)) (st\<lparr>consensusBackends := []\<rparr>)
     = Return (True, st') \<Longrightarrow>
   seekConsensus e cp cur p st = Some (Return (p, st'))"
  by (subst seekConsensus.simps) simp

lemma seekConsensus_nextRound:
  "nextRound e cp cur (p, st) = Some s' \<Longrightarrow>
   seekConsensus e cp cur p st = seekConsensus e cp cur (fst s') (snd s')"
  by (subst seekConsensus.simps)
     (auto simp: nextRound_def split: exec.splits bool.splits)

lemma seekConsensus_roundStart:
  "roundStart e cp cur k (p, st) = Some (p', st') \<Longrightarrow>
   seekConsensus e cp cur p st = seekConsensus e cp cur p' st'"
proof (induction k arbitrary: p st)
  case 0
  then show ?case by simp
next
  case (Suc k)
  from Suc.prems obtain q st1 where nr: "nextRound e cp cur (p, st) = Some (q, st1)"
    and rs: "roundStart e cp cur k (q, st1) = Some (p', st')"
    by (auto split: option.splits)
  have "seekConsensus e cp cur p st = seekConsensus e cp cur q st1"
    using seekConsensus_nextRound [OF nr] by simp
  also have "\<dots> = seekConsensus e cp cur p' st'" by (rule Suc.IH [OF rs])
  finally show ?case .
qed

text \<open>A loop that returns has made finitely many rounds, and its last round did not fail.\<close>

lemma seekConsensus_rounds:
  assumes "seekConsensus e cp cur p st = Some r"
  shows "\<exists>k p' st1. roundStart e cp cur k (p, st) = Some (p', st1)
           \<and> nextRound e cp cur (p', st1) = None
           \<and> (case checkBackends e cp cur p' (Backends (backendGroup cp))
                     (st1\<lparr>consensusBackends := []\<rparr>) of
                 Panic \<Rightarrow> r = Panic
               | Return (ag, st') \<Rightarrow> r = Return (p', st'))"
proof (rule seekConsensus.raw_induct [where P = "\<lambda>e cp cur p st r.
          \<exists>k p' st1. roundStart e cp cur k (p, st) = Some (p', st1)
           \<and> nextRound e cp cur (p', st1) = None
           \<and> (case checkBackends e cp cur p' (Backends (backendGroup cp))
                     (st1\<lparr>consensusBackends := []\<rparr>) of
                 Panic \<Rightarrow> r = Panic
               | Return (ag, st') \<Rightarrow> r = Return (p', st'))", OF _ assms])
  fix seek e cp cur p st r
  assume IH: "\<And>e cp cur p st r. seek e cp cur p st = Some r \<Longrightarrow>
          \<exists>k p' st1. roundStart e cp cur k (p, st) = Some (p', st1)
           \<and> nextRound e cp cur (p', st1) = None
           \<and> (case checkBackends e cp cur p' (Backends (backendGroup cp))
                     (st1\<lparr>consensusBackends := []\<rparr>) of
                 Panic \<Rightarrow> r = Panic
               | Return (ag, st') \<Rightarrow> r = Return (p', st'))"
  assume body: "(case checkBackends e cp cur p (Backends (backendGroup cp))
            (st\<lparr>consensusBackends := []\<rparr>) of
      Panic \<Rightarrow> Some Panic
      | Return (allAgreed, st') \<Rightarrow>
          if allAgreed then Some (Return (p, st'))
          else seek e cp cur (p - 1) (st'\<lparr>proposedBlockHash := []\<rparr>)) = Some r"
  show "\<exists>k p' st1. roundStart e cp cur k (p, st) = Some (p', st1)
           \<and> nextRound e cp cur (p', st1) = None
           \<and> (case checkBackends e cp cur p' (Backends (backendGroup cp))
                     (st1\<lparr>consensusBackends := []\<rparr>) of
                 Panic \<Rightarrow> r = Panic
               | Return (ag, st') \<Rightarrow> r = Return (p', st'))"
  proof (cases "checkBackends e cp cur p (Backends (backendGroup cp)) (st\<lparr>consensusBackends := []\<rparr>)")
    case Panic
    then have "roundStart e cp cur 0 (p, st) = Some (p, st) \<and> nextRound e cp cur (p, st) = None
        \<and> r = Panic"
      using body by (simp add: nextRound_def)
    then show ?thesis using Panic by (intro exI [of _ 0] exI [of _ p] exI [of _ st]) simp
  next
    case (Return res)
    obtain ag st' where res: "res = (ag, st')" by (cases res)
    show ?thesis
    proof (cases ag)
      case True
      then have "roundStart e cp cur 0 (p, st) = Some (p, st) \<and> nextRound e cp cur (p, st) = None
          \<and> r = Return (p, st')"
        using body Return res by (simp add: nextRound_def)
      then show ?thesis using Return res True
        by (intro exI [of _ 0] exI [of _ p] exI [of _ st]) simp
    next
      case False
      then have "seek e cp cur (p - 1) (st'\<lparr>proposedBlockHash := []\<rparr>) = Some r"
        using body Return res by simp
      from IH [OF this] obtain k p' st1 where
        k: "roundStart e cp cur k (p - 1, st'\<lparr>proposedBlockHash := []\<rparr>) = Some (p', st1)"
        and rest: "nextRound e cp cur (p', st1) = None
           \<and> (case checkBackends e cp cur p' (Backends (backendGroup cp))
                     (st1\<lparr>consensusBackends := []\<rparr>) of
                 Panic \<Rightarrow> r = Panic
               | Return (ag, st') \<Rightarrow> r = Return (p', st'))"
        by blast
      have "nextRound e cp cur (p, st) = Some (p - 1, st'\<lparr>proposedBlockHash := []\<rparr>)"
        using Return res False by (simp add: nextRound_def)
      then have "roundStart e cp cur (Suc k) (p, st) = Some (p', st1)" using k by simp
      then show ?thesis using rest by blast
    qed
  qed
qed

text \<open>A loop whose every round fails never returns.\<close>

lemma seekConsensus_diverges:
  assumes "\<And>p st. nextRound e cp cur (p, st) \<noteq> None"
  shows "seekConsensus e cp cur p st = None"
proof (cases "seekConsensus e cp cur p st")
  case None
  then show ?thesis .
next
  case (Some r)
  from seekConsensus_rounds [OF Some] obtain p' st1 where "nextRound e cp cur (p', st1) = None"
    by blast
  then show ?thesis using assms by simp
qed

subsection \<open>The accessors\<close>

lemma GetConsensusGroup_length:
  "length (GetConsensusGroup cp) = length (Backends (backendGroup cp))"
  by (simp add: GetConsensusGroup_def copy_slice_def Let_def)

lemma GetConsensusGroup_padded:
  "length (consensusGroup cp) \<le> length (Backends (backendGroup cp)) \<Longrightarrow>
   GetConsensusGroup cp =
     map Some (consensusGroup cp)
       @ replicate (length (Backends (backendGroup cp)) - length (consensusGroup cp)) None"
  by (simp add: GetConsensusGroup_def copy_slice_def Let_def)

text \<open>
  C1. \<^verbatim>\<open>GetConsensusGroup\<close> is claimed to return a copy of the published group, of the
  same length and with the same elements. The slice it builds has the length of the
  pool, not of the group: with the backends 0 and 2 in the pool and only backend 0 in the
  published group, the result is backend 0 followed by a nil pointer, while the group has
  one element.
\<close>

theorem GetConsensusGroup_pads_with_nil:
  "GetConsensusGroup (laggingPoller\<lparr>consensusGroup := [0], tracker := 1\<rparr>) = [Some 0, None]
   \<and> map Some (consensusGroup (laggingPoller\<lparr>consensusGroup := [0], tracker := 1\<rparr>)) = [Some 0]"
  by (simp add: GetConsensusGroup_def copy_slice_def laggingPoller_def poller_def)

text \<open>
  C7. \<^verbatim>\<open>setBackendState\<close> on a backend that has a state returns \<open>changed = True\<close>
  exactly when the incoming hash differs from the stored one, whatever the heights are,
  and overwrites the height, the hash and \<^verbatim>\<open>lastUpdate\<close> (with the current time); the ban
  and the states of the other backends stay as they are.
\<close>

theorem setBackendState_changed:
  assumes "backendState cp be = Some bs"
  shows "setBackendState now cp be blockNumber blockHash =
    Return (latestBlockHash bs \<noteq> blockHash,
            cp\<lparr>backendState := (backendState cp)(be \<mapsto>
                 bs\<lparr>latestBlockNumber := blockNumber,
                    latestBlockHash := blockHash,
                    lastUpdate := now\<rparr>)\<rparr>)"
  using assms by (simp add: setBackendState_def Let_def)

theorem setBackendState_changed_witness:
  "backendState (strayPoller 4) 0 = Some (stateAt 5 ''0xaa'')
   \<and> setBackendState 77 (strayPoller 4) 0 9 ''0xaa'' =
       Return (False, (strayPoller 4)\<lparr>backendState := (backendState (strayPoller 4))(0 \<mapsto>
          (stateAt 5 ''0xaa'')\<lparr>latestBlockNumber := 9, latestBlockHash := ''0xaa'',
             lastUpdate := 77\<rparr>)\<rparr>)
   \<and> setBackendState 77 (strayPoller 4) 0 5 ''0xbb'' =
       Return (True, (strayPoller 4)\<lparr>backendState := (backendState (strayPoller 4))(0 \<mapsto>
          (stateAt 5 ''0xaa'')\<lparr>latestBlockNumber := 5, latestBlockHash := ''0xbb'',
             lastUpdate := 77\<rparr>)\<rparr>)"
proof -
  have h: "backendState (strayPoller 4) 0 = Some (stateAt 5 ''0xaa'')"
    by (simp add: strayPoller_def poller_def)
  have "latestBlockHash (stateAt 5 ''0xaa'') = ''0xaa''" by (simp add: stateAt_def)
  then show ?thesis
    using h setBackendState_changed [OF h, of 77 9 "''0xaa''"]
      setBackendState_changed [OF h, of 77 5 "''0xbb''"]
    by simp
qed

subsection \<open>The baseline of a cycle\<close>

text \<open>
  C2. The baseline of a cycle is claimed to be the minimum height over all backends,
  whatever the order of the scan, with an abort exactly when every height is zero. The
  scan uses zero both as a height and as the mark of "nothing seen yet": with the heights
  5, 0 and 7 it ends at 7, above every candidate minimum, and with the same backends in
  the order 5, 7, 0 it ends at 0, which aborts the cycle although two backends have data.
\<close>

theorem lowestBlockScan_order_dependent:
  "lowestBlockScan (poller [0, 1, 2] mixedStates [] 0) [0, 1, 2] (0, []) = Return (7, ''0xa7'')
   \<and> lowestBlockScan (poller [0, 2, 1] mixedStates [] 0) [0, 2, 1] (0, []) = Return (0, [])"
  by (simp add: getBackendState_def poller_def mixedStates_def stateAt_def)

text \<open>
  C8. When every backend of the pool has a recorded height of zero, the cycle returns
  with the poller as it was: the published height and the published group are unchanged,
  and no event is logged.
\<close>

theorem no_data_no_resolution:
  assumes "\<forall>be \<in> set (Backends (backendGroup cp)).
             \<exists>bs. backendState cp be = Some bs \<and> latestBlockNumber bs = 0"
  shows "UpdateBackendGroupConsensus e cp = Some (Return (cp, False))"
proof -
  from lowestBlockScan_all_zero [OF assms] obtain h where
    "lowestBlockScan cp (Backends (backendGroup cp)) (0, []) = Return (0, h)" by blast
  then show ?thesis by (simp add: UpdateBackendGroupConsensus_def)
qed

theorem no_data_no_resolution_witness:
  "Backends (backendGroup coldPoller) = [0]
   \<and> backendState coldPoller 0 = Some (stateAt 0 [])
   \<and> latestBlockNumber (stateAt 0 []) = 0
   \<and> consensusGroup coldPoller = [0] \<and> tracker coldPoller = 7
   \<and> UpdateBackendGroupConsensus coldEnv coldPoller = Some (Return (coldPoller, False))"
proof -
  have h: "\<forall>be \<in> set (Backends (backendGroup coldPoller)).
       \<exists>bs. backendState coldPoller be = Some bs \<and> latestBlockNumber bs = 0"
    by (simp add: coldPoller_def poller_def stateAt_def)
  have "Backends (backendGroup coldPoller) = [0]
      \<and> backendState coldPoller 0 = Some (stateAt 0 [])
      \<and> latestBlockNumber (stateAt 0 []) = 0
      \<and> consensusGroup coldPoller = [0] \<and> tracker coldPoller = 7"
    by (simp add: coldPoller_def poller_def stateAt_def)
  then show ?thesis using no_data_no_resolution [OF h, of coldEnv] by simp
qed

subsection \<open>fetchBlock and malformed responses\<close>

lemma fetchBlock_not_a_record:
  "ForwardRPC e be block = RPCResult res \<Longrightarrow> \<forall>m. res \<noteq> JObject m \<Longrightarrow>
   \<exists>msg. fetchBlock e be block = Return (Inl (UnexpectedResponseType msg))"
  by (cases res) (simp_all add: fetchBlock_def)

lemma fetchBlock_transport_error:
  "ForwardRPC e be block = RPCError err \<Longrightarrow>
   fetchBlock e be block = Return (Inl (TransportError err))"
  by (simp add: fetchBlock_def)

text \<open>
  C3. \<^verbatim>\<open>fetchBlock\<close> is claimed to return an error whenever the result is not a record,
  a field is absent, or the height is not hexadecimal. It does so for a result that is not
  a record, but the fields are read with unchecked type assertions and the height with
  \<^verbatim>\<open>MustDecodeUint64\<close>: a record without \<^verbatim>\<open>number\<close>, a record without \<^verbatim>\<open>hash\<close>,
  and a record whose \<^verbatim>\<open>number\<close> is not a hexadecimal quantity all make it panic.
\<close>

theorem fetchBlock_panics_on_malformed_record:
  "fetchBlock (healthy (\<lambda>be block. RPCResult (JObject [(''hash'', JString ''0xaa'')]))) 0 ''latest''
     = Panic
   \<and> fetchBlock (healthy (\<lambda>be block. RPCResult (JObject [(''number'', JString ''0x5'')]))) 0 ''latest''
     = Panic
   \<and> fetchBlock (healthy (\<lambda>be block. blockReply ''12'' ''0xaa'')) 0 ''latest'' = Panic
   \<and> fetchBlock (healthy (\<lambda>be block. RPCResult (JArray []))) 0 ''latest''
     = Return (Inl (UnexpectedResponseType
         ''unexpected response type checking consensus on backend node''))"
  by (simp add: fetchBlock_def healthy_def blockReply_def assertString_def MustDecodeUint64_def
      DecodeUint64_def checkNumber_def has0xPrefix_def hexVal_def Let_def)

subsection \<open>The concrete pollers\<close>

lemma EncodeUint64_small:
  "EncodeUint64 0 = ''0x0''" "EncodeUint64 1 = ''0x1''" "EncodeUint64 2 = ''0x2''"
  "EncodeUint64 4 = ''0x4''" "EncodeUint64 5 = ''0x5''"
  by code_simp+

lemma DecodeUint64_small:
  "DecodeUint64 ''0x14'' = Some 20" "DecodeUint64 ''0x2'' = Some 2"
  by code_simp+

lemma healthy_simps:
  "IsRateLimited (healthy rpc) be = False" "Online (healthy rpc) be = True"
  "ForwardRPC (healthy rpc) = rpc" "Now (healthy rpc) = 1000"
  by (simp_all add: healthy_def)

lemma poller_simps:
  "Backends (backendGroup (poller pool states grp height)) = pool"
  "backendState (poller pool states grp height) = states"
  "consensusGroup (poller pool states grp height) = grp"
  "tracker (poller pool states grp height) = height"
  by (simp_all add: poller_def)

lemma stray_fetch5:
  "fetchBlock (strayEnv number) 0 (EncodeUint64 5) =
     (case DecodeUint64 number of None \<Rightarrow> Panic | Some n \<Rightarrow> Return (Inr (n, ''0xff'')))"
  by (rule fetchBlock_blockReply) (simp add: strayEnv_def healthy_simps EncodeUint64_small)

lemma stray_fetch4:
  "fetchBlock (strayEnv number) 0 (EncodeUint64 4) = Return (Inr (4, ''0xaa''))"
  by (rule fetchBlock_echo) (simp add: strayEnv_def healthy_simps EncodeUint64_small)

lemma stray_isFiltered: "isFiltered (strayEnv number) (strayPoller height) 0 = Return False"
  by (simp add: isFiltered_def strayEnv_def strayPoller_def healthy_simps poller_simps stateAt_def)

lemma stray_scan:
  "lowestBlockScan (strayPoller height) (Backends (backendGroup (strayPoller height))) (0, [])
     = Return (5, ''0xaa'')"
  by (simp add: strayPoller_def poller_simps getBackendState_def stateAt_def)

text \<open>
  The backend answers the query for block 5 with block \<open>n\<close> and another hash: the round at
  block 5 breaks at it, the round at block 4 agrees.
\<close>

lemma stray_pool: "Backends (backendGroup (strayPoller height)) = [0]"
  by (simp add: strayPoller_def poller_simps)

lemma stray_round5:
  assumes "DecodeUint64 number = Some n"
  shows "checkBackends (strayEnv number) (strayPoller height) height 5 [0]
           \<lparr>proposedBlockHash = ''0xaa'', broken = False, consensusBackends = []\<rparr>
         = Return (False,
             \<lparr>proposedBlockHash = ''0xaa'', broken = n \<le> height, consensusBackends = []\<rparr>)"
  by (simp add: stray_isFiltered stray_fetch5 assms Let_def)

lemma stray_round4:
  "checkBackends (strayEnv number) (strayPoller height) height 4 [0]
     \<lparr>proposedBlockHash = [], broken = b, consensusBackends = []\<rparr>
   = Return (True, \<lparr>proposedBlockHash = ''0xaa'', broken = b, consensusBackends = [0]\<rparr>)"
  by (simp add: stray_isFiltered stray_fetch4 Let_def)

lemma stray_nextRound:
  assumes "DecodeUint64 number = Some n"
  shows "nextRound (strayEnv number) (strayPoller height) height (5, initialRound ''0xaa'')
     = Some (4, \<lparr>proposedBlockHash = [], broken = n \<le> height, consensusBackends = []\<rparr>)"
proof -
  have "(5::uint64) - 1 = 4" by simp
  then show ?thesis
    by (simp add: nextRound_def stray_pool initialRound_def stray_round5 [OF assms]
        del: checkBackends.simps)
qed

lemma stray_seek:
  assumes "DecodeUint64 number = Some n"
  shows "seekConsensus (strayEnv number) (strayPoller height) height 5 (initialRound ''0xaa'')
     = Some (Return (4, \<lparr>proposedBlockHash = ''0xaa'', broken = n \<le> height,
                          consensusBackends = [0]\<rparr>))"
proof -
  let ?st = "\<lparr>proposedBlockHash = [], broken = n \<le> height, consensusBackends = []\<rparr>"
  have "seekConsensus (strayEnv number) (strayPoller height) height 5 (initialRound ''0xaa'')
      = seekConsensus (strayEnv number) (strayPoller height) height 4 ?st"
    using seekConsensus_nextRound [OF stray_nextRound [OF assms]] by simp
  also have "\<dots> = Some (Return (4, \<lparr>proposedBlockHash = ''0xaa'', broken = n \<le> height,
                          consensusBackends = [0]\<rparr>))"
    by (rule seekConsensus_agreed) (simp add: stray_pool stray_round4 del: checkBackends.simps)
  finally show ?thesis .
qed

lemma stray_resolve:
  assumes "DecodeUint64 number = Some n"
  shows "resolveFrom (strayEnv number) (strayPoller height) height 5 ''0xaa''
     = Some (Return ((strayPoller height)\<lparr>consensusGroup := [0], tracker := 4\<rparr>, n \<le> height))"
  using stray_seek [OF assms, of height]
  by (simp add: resolveFrom_def initialRound_def tracker_SetConsensusBlockNumber_def)

lemma stray_cycle:
  assumes "DecodeUint64 number = Some n"
  shows "UpdateBackendGroupConsensus (strayEnv number) (strayPoller height)
     = Some (Return ((strayPoller height)\<lparr>consensusGroup := [0], tracker := 4\<rparr>, n \<le> height))"
proof -
  have "tracker (strayPoller height) = height" by (simp add: strayPoller_def poller_simps)
  then show ?thesis
    using stray_resolve [OF assms, of height] stray_scan [of height]
    by (simp add: UpdateBackendGroupConsensus_def GetConsensusBlockNumber_def
        tracker_GetConsensusBlockNumber_def)
qed

subsection \<open>Degenerate rounds\<close>

lemma flaky_round5:
  "checkBackends flakyEnv (strayPoller 3) 3 5 [0]
     \<lparr>proposedBlockHash = ''0xaa'', broken = False, consensusBackends = []\<rparr>
   = Return (False, \<lparr>proposedBlockHash = ''0xaa'', broken = False, consensusBackends = []\<rparr>)"
proof -
  have "DecodeUint64 ''0x5'' = Some 5"
    using DecodeUint64_EncodeUint64 [of 5] by (simp add: EncodeUint64_small)
  then have "fetchBlock flakyEnv 0 (EncodeUint64 5) = Return (Inr (5, ''0xff''))"
    by (simp add: fetchBlock_blockReply [of _ _ _ "''0x5''" "''0xff''"] flakyEnv_def healthy_simps
        EncodeUint64_small)
  moreover have "isFiltered flakyEnv (strayPoller 3) 0 = Return False"
    by (simp add: isFiltered_def flakyEnv_def strayPoller_def healthy_simps poller_simps stateAt_def)
  ultimately show ?thesis by (simp add: Let_def)
qed

lemma resolveFrom_degenerate:
  assumes "roundStart e cp cur k (p0, initialRound ph0) = Some (p, st)"
    and "\<forall>be \<in> set (Backends (backendGroup cp)).
           isFiltered e cp be = Return True
           \<or> (isFiltered e cp be = Return False
               \<and> (\<exists>err. fetchBlock e be (EncodeUint64 p) = Return (Inl err)))"
  shows "resolveFrom e cp cur p0 ph0 =
           Some (Return (cp\<lparr>consensusGroup := [], tracker := p\<rparr>, broken st))"
proof -
  have "seekConsensus e cp cur p0 (initialRound ph0) = seekConsensus e cp cur p st"
    by (rule seekConsensus_roundStart [OF assms(1)])
  also have "\<dots> = Some (Return (p, st\<lparr>consensusBackends := []\<rparr>))"
    by (rule seekConsensus_agreed) (rule checkBackends_nobody [OF assms(2)])
  finally show ?thesis
    by (simp add: resolveFrom_def initialRound_def tracker_SetConsensusBlockNumber_def)
qed

text \<open>
  C10. Take a cycle that gets past its baseline check, with baseline \<open>(p0, ph0)\<close>. When
  in some round of its loop (the round that proposes block \<open>p\<close>, after \<open>k\<close> failed rounds)
  every backend of the pool is filtered out or fails to answer the query for \<open>p\<close>, the
  round counts as agreement: the loop stops there and the cycle publishes \<open>p\<close> together
  with an empty group, whatever the group was before.
\<close>

theorem degenerate_round_publishes_empty_group:
  assumes "lowestBlockScan cp (Backends (backendGroup cp)) (0, []) = Return (p0, ph0)"
    and "p0 \<noteq> 0"
    and "roundStart e cp (tracker cp) k (p0, initialRound ph0) = Some (p, st)"
    and "\<forall>be \<in> set (Backends (backendGroup cp)).
           isFiltered e cp be = Return True
           \<or> (isFiltered e cp be = Return False
               \<and> (\<exists>err. fetchBlock e be (EncodeUint64 p) = Return (Inl err)))"
  shows "UpdateBackendGroupConsensus e cp =
           Some (Return (cp\<lparr>consensusGroup := [], tracker := p\<rparr>, broken st))"
  using resolveFrom_degenerate [OF assms(3,4)] assms(1,2)
  by (simp add: UpdateBackendGroupConsensus_def GetConsensusBlockNumber_def
      tracker_GetConsensusBlockNumber_def)

theorem degenerate_round_publishes_empty_group_witness:
  "lowestBlockScan (strayPoller 3) (Backends (backendGroup (strayPoller 3))) (0, [])
     = Return (5, ''0xaa'')
   \<and> roundStart flakyEnv (strayPoller 3) (tracker (strayPoller 3)) 1 (5, initialRound ''0xaa'') =
       Some (4, \<lparr>proposedBlockHash = [], broken = False, consensusBackends = []\<rparr>)
   \<and> isFiltered flakyEnv (strayPoller 3) 0 = Return False
   \<and> fetchBlock flakyEnv 0 (EncodeUint64 4) = Return (Inl (TransportError ''timeout''))
   \<and> consensusGroup (strayPoller 3) = [0]
   \<and> UpdateBackendGroupConsensus flakyEnv (strayPoller 3) =
       Some (Return ((strayPoller 3)\<lparr>consensusGroup := [], tracker := 4\<rparr>, False))"
proof -
  let ?st = "\<lparr>proposedBlockHash = [], broken = False, consensusBackends = []\<rparr>"
  have tr: "tracker (strayPoller 3) = 3" by (simp add: strayPoller_def poller_simps)
  have "(5::uint64) - 1 = 4" by simp
  then have r: "roundStart flakyEnv (strayPoller 3) (tracker (strayPoller 3)) 1
      (5, initialRound ''0xaa'') = Some (4, ?st)"
    by (simp add: tr nextRound_def stray_pool initialRound_def flaky_round5
        del: checkBackends.simps)
  have f: "isFiltered flakyEnv (strayPoller 3) 0 = Return False"
    by (simp add: isFiltered_def flakyEnv_def strayPoller_def healthy_simps poller_simps stateAt_def)
  have t: "fetchBlock flakyEnv 0 (EncodeUint64 4) = Return (Inl (TransportError ''timeout''))"
    by (simp add: fetchBlock_def flakyEnv_def healthy_simps EncodeUint64_small)
  have h: "\<forall>be \<in> set (Backends (backendGroup (strayPoller 3))).
           isFiltered flakyEnv (strayPoller 3) be = Return True
           \<or> (isFiltered flakyEnv (strayPoller 3) be = Return False
               \<and> (\<exists>err. fetchBlock flakyEnv be (EncodeUint64 4) = Return (Inl err)))"
    using f t by (simp add: stray_pool)
  have nz: "(5::uint64) \<noteq> 0" by simp
  have "consensusGroup (strayPoller 3) = [0]" by (simp add: strayPoller_def poller_simps)
  then show ?thesis
    using r f t stray_scan [of 3] degenerate_round_publishes_empty_group [OF stray_scan nz r h]
    by simp
qed

subsection \<open>Unanimous agreement\<close>

lemma isFiltered_cases:
  "backendState cp be \<noteq> None \<Longrightarrow>
   isFiltered e cp be = Return True \<or> isFiltered e cp be = Return False"
  by (auto simp: isFiltered_def)

lemma resolveFrom_unanimous:
  assumes "\<forall>be \<in> set (Backends (backendGroup cp)). backendState cp be \<noteq> None"
    and "\<forall>be \<in> set (Backends (backendGroup cp)). isFiltered e cp be = Return False \<longrightarrow>
           fetchBlock e be (EncodeUint64 h) = Return (Inr (h, hs))"
  shows "resolveFrom e cp cur h hs =
           Some (Return (cp\<lparr>consensusGroup :=
                   filter (\<lambda>be. isFiltered e cp be = Return False) (Backends (backendGroup cp)),
                 tracker := h\<rparr>, False))"
proof -
  let ?st = "(initialRound hs)\<lparr>consensusBackends := []\<rparr>"
  have "\<forall>be \<in> set (Backends (backendGroup cp)). isFiltered e cp be = Return True
      \<or> (isFiltered e cp be = Return False
          \<and> fetchBlock e be (EncodeUint64 h) = Return (Inr (h, proposedBlockHash ?st)))"
    using assms isFiltered_cases [of cp _ e] by (auto simp: initialRound_def)
  then have "checkBackends e cp cur h (Backends (backendGroup cp)) ?st =
      Return (True, ?st\<lparr>consensusBackends := consensusBackends ?st
          @ filter (\<lambda>be. isFiltered e cp be = Return False) (Backends (backendGroup cp))\<rparr>)"
    by (rule checkBackends_unanimous)
  then have "seekConsensus e cp cur h (initialRound hs) =
      Some (Return (h, ?st\<lparr>consensusBackends := consensusBackends ?st
          @ filter (\<lambda>be. isFiltered e cp be = Return False) (Backends (backendGroup cp))\<rparr>))"
    by (rule seekConsensus_agreed)
  then show ?thesis
    by (simp add: resolveFrom_def initialRound_def tracker_SetConsensusBlockNumber_def)
qed

text \<open>
  C5, as the code has it. The baseline of the cycle comes from the states of all
  backends of the pool, live or not. When that baseline is the pair \<open>(h, hs)\<close> with
  \<open>h \<noteq> 0\<close> and every backend that passes the filter answers the query for block \<open>h\<close> with
  exactly \<open>(h, hs)\<close>, the cycle returns after one round, the published group is the list
  of the backends that pass the filter, in pool order, and the published height is \<open>h\<close>.
\<close>

theorem unanimous_agreement:
  assumes "lowestBlockScan cp (Backends (backendGroup cp)) (0, []) = Return (h, hs)"
    and "h \<noteq> 0"
    and "\<forall>be \<in> set (Backends (backendGroup cp)). isFiltered e cp be = Return False \<longrightarrow>
           fetchBlock e be (EncodeUint64 h) = Return (Inr (h, hs))"
  shows "UpdateBackendGroupConsensus e cp =
           Some (Return (cp\<lparr>consensusGroup :=
                   filter (\<lambda>be. isFiltered e cp be = Return False) (Backends (backendGroup cp)),
                 tracker := h\<rparr>, False))"
proof -
  have "\<forall>be \<in> set (Backends (backendGroup cp)). backendState cp be \<noteq> None"
    using lowestBlockScan_states [OF assms(1)] by blast
  from resolveFrom_unanimous [OF this assms(3)] show ?thesis
    using assms(1,2) by (simp add: UpdateBackendGroupConsensus_def)
qed

lemma agreed_facts:
  "lowestBlockScan agreedPoller [0, 2, 3] (0, []) = Return (5, ''0xaa'')"
  "Backends (backendGroup agreedPoller) = [0, 2, 3]"
  "isFiltered agreedEnv agreedPoller 0 = Return False"
  "isFiltered agreedEnv agreedPoller 2 = Return False"
  "isFiltered agreedEnv agreedPoller 3 = Return True"
  "fetchBlock agreedEnv be (EncodeUint64 p) = Return (Inr (p, ''0xaa''))"
proof -
  show "fetchBlock agreedEnv be (EncodeUint64 p) = Return (Inr (p, ''0xaa''))"
    by (rule fetchBlock_echo) (simp add: agreedEnv_def healthy_def)
qed (simp_all add: agreedPoller_def agreedEnv_def poller_simps healthy_def isFiltered_def
      getBackendState_def stateAt_def)

theorem unanimous_agreement_witness:
  "lowestBlockScan agreedPoller (Backends (backendGroup agreedPoller)) (0, []) = Return (5, ''0xaa'')
   \<and> isFiltered agreedEnv agreedPoller 0 = Return False
   \<and> isFiltered agreedEnv agreedPoller 2 = Return False
   \<and> isFiltered agreedEnv agreedPoller 3 = Return True
   \<and> fetchBlock agreedEnv 0 (EncodeUint64 5) = Return (Inr (5, ''0xaa''))
   \<and> fetchBlock agreedEnv 2 (EncodeUint64 5) = Return (Inr (5, ''0xaa''))
   \<and> UpdateBackendGroupConsensus agreedEnv agreedPoller =
       Some (Return (agreedPoller\<lparr>consensusGroup := [0, 2], tracker := 5\<rparr>, False))"
proof -
  have h: "\<forall>be \<in> set (Backends (backendGroup agreedPoller)).
      isFiltered agreedEnv agreedPoller be = Return False \<longrightarrow>
      fetchBlock agreedEnv be (EncodeUint64 5) = Return (Inr (5, ''0xaa''))"
    by (simp add: agreed_facts)
  have nz: "(5::uint64) \<noteq> 0" by simp
  have scan: "lowestBlockScan agreedPoller (Backends (backendGroup agreedPoller)) (0, [])
      = Return (5, ''0xaa'')"
    by (simp only: agreed_facts)
  show ?thesis
    using unanimous_agreement [OF scan nz h]
    by (simp add: agreed_facts del: lowestBlockScan.simps)
qed

lemma lagging_facts:
  "lowestBlockScan laggingPoller [0, 2] (0, []) = Return (1, ''0xaa'')"
  "Backends (backendGroup laggingPoller) = [0, 2]"
  "backendState laggingPoller 0 \<noteq> None" "backendState laggingPoller 2 \<noteq> None"
  "getBackendState laggingPoller 0 = Return (2, ''0xaa'')"
  "isFiltered laggingEnv laggingPoller 0 = Return False"
  "isFiltered laggingEnv laggingPoller 2 = Return True"
  "fetchBlock laggingEnv 0 (EncodeUint64 p) = Return (Inr (p, ''0xaa''))"
  "tracker laggingPoller = 0"
proof -
  show "fetchBlock laggingEnv 0 (EncodeUint64 p) = Return (Inr (p, ''0xaa''))"
    by (rule fetchBlock_echo) (simp add: laggingEnv_def healthy_def)
qed (simp_all add: laggingPoller_def laggingEnv_def poller_simps healthy_def isFiltered_def
      getBackendState_def stateAt_def)

text \<open>
  C5, as claimed, fails: backend 0 is the only live backend, its latest state is block 2
  and it confirms block 2 when asked, but the offline backend 2 has block 1 as its last
  state, so the cycle starts from block 1, finds backend 0 in agreement there and publishes
  height 1.
\<close>

theorem unanimous_agreement_counterexample:
  "isFiltered laggingEnv laggingPoller 0 = Return False
   \<and> isFiltered laggingEnv laggingPoller 2 = Return True
   \<and> getBackendState laggingPoller 0 = Return (2, ''0xaa'')
   \<and> fetchBlock laggingEnv 0 (EncodeUint64 2) = Return (Inr (2, ''0xaa''))
   \<and> UpdateBackendGroupConsensus laggingEnv laggingPoller =
       Some (Return (laggingPoller\<lparr>consensusGroup := [0], tracker := 1\<rparr>, False))
   \<and> tracker (laggingPoller\<lparr>consensusGroup := [0], tracker := 1\<rparr>) \<noteq> 2"
proof -
  have "resolveFrom laggingEnv laggingPoller 0 1 ''0xaa'' =
      Some (Return (laggingPoller\<lparr>consensusGroup :=
          filter (\<lambda>be. isFiltered laggingEnv laggingPoller be = Return False)
            (Backends (backendGroup laggingPoller)), tracker := 1\<rparr>, False))"
    by (rule resolveFrom_unanimous) (simp_all add: lagging_facts del: not_None_eq)
  then have "UpdateBackendGroupConsensus laggingEnv laggingPoller =
       Some (Return (laggingPoller\<lparr>consensusGroup := [0], tracker := 1\<rparr>, False))"
    by (simp add: UpdateBackendGroupConsensus_def lagging_facts GetConsensusBlockNumber_def
        tracker_GetConsensusBlockNumber_def del: lowestBlockScan.simps)
  then show ?thesis by (simp add: lagging_facts)
qed

subsection \<open>Exclusion of filtered backends\<close>





subsection \<open>The broken-consensus event\<close>

lemma nextRound_Some:
  assumes "nextRound e cp cur (p, st) = Some s'"
  shows "\<exists>be n h. disagreement e cp p (proposedBlockHash st) (Backends (backendGroup cp))
             = Return (Some (be, n, h))
           \<and> broken (snd s') = (broken st \<or> n \<le> cur)"
proof -
  let ?st = "st\<lparr>consensusBackends := []\<rparr>"
  from assms obtain st' where c: "checkBackends e cp cur p (Backends (backendGroup cp)) ?st
      = Return (False, st')" and s': "s' = (p - 1, st'\<lparr>proposedBlockHash := []\<rparr>)"
    by (auto simp: nextRound_def split: exec.splits bool.splits)
  note d = checkBackends_disagreement [of e cp p ?st "Backends (backendGroup cp)" cur]
  show ?thesis
  proof (cases "disagreement e cp p (proposedBlockHash st) (Backends (backendGroup cp))")
    case Panic
    then show ?thesis using d c by simp
  next
    case (Return r)
    show ?thesis
    proof (cases r)
      case None
      then show ?thesis using d c Return by simp
    next
      case (Some t)
      obtain be n h where "t = (be, n, h)" by (cases t)
      then show ?thesis using d c Return Some s' by simp
    qed
  qed
qed

lemma round_agreed:
  assumes "checkBackends e cp cur p (Backends (backendGroup cp)) (st\<lparr>consensusBackends := []\<rparr>)
      = Return (True, st')"
  shows "disagreement e cp p (proposedBlockHash st) (Backends (backendGroup cp)) = Return None
         \<and> broken st' = broken st"
proof -
  let ?st = "st\<lparr>consensusBackends := []\<rparr>"
  note d = checkBackends_disagreement [of e cp p ?st "Backends (backendGroup cp)" cur]
  show ?thesis
  proof (cases "disagreement e cp p (proposedBlockHash st) (Backends (backendGroup cp))")
    case Panic
    then show ?thesis using d assms by simp
  next
    case (Return r)
    show ?thesis
    proof (cases r)
      case None
      then show ?thesis using d assms Return by simp
    next
      case (Some t)
      obtain be n h where "t = (be, n, h)" by (cases t)
      then show ?thesis using d assms Return Some by simp
    qed
  qed
qed

lemma roundStart_add:
  "roundStart e cp cur (k + m) s =
     (case roundStart e cp cur k s of None \<Rightarrow> None | Some t \<Rightarrow> roundStart e cp cur m t)"
  by (induction k arbitrary: s) (auto split: option.splits)

lemma roundStart_last:
  assumes "roundStart e cp cur k s = Some t" and "nextRound e cp cur t = None"
    and "roundStart e cp cur j s = Some u"
  shows "j \<le> k"
proof (rule ccontr)
  assume "\<not> j \<le> k"
  then obtain m where j: "j = k + Suc m" by (metis add_Suc_right less_imp_Suc_add not_le)
  have "roundStart e cp cur j s = None"
    unfolding j roundStart_add using assms(1,2) by simp
  then show False using assms(3) by simp
qed

text \<open>The flag at the start of a round records the answers that broke the earlier rounds.\<close>

lemma roundStart_broken:
  "roundStart e cp cur k (p, st) = Some (q, st1) \<Longrightarrow>
   broken st1 \<longleftrightarrow> broken st \<or>
     (\<exists>j<k. \<exists>q' st' be n h. roundStart e cp cur j (p, st) = Some (q', st')
        \<and> disagreement e cp q' (proposedBlockHash st') (Backends (backendGroup cp))
            = Return (Some (be, n, h))
        \<and> n \<le> cur)"
proof (induction k arbitrary: p st)
  case 0
  then show ?case by simp
next
  case (Suc k)
  from Suc.prems obtain p1 s1 where nr: "nextRound e cp cur (p, st) = Some (p1, s1)"
    and rs: "roundStart e cp cur k (p1, s1) = Some (q, st1)"
    by (auto split: option.splits)
  from nextRound_Some [OF nr] obtain be n h where
    d: "disagreement e cp p (proposedBlockHash st) (Backends (backendGroup cp))
          = Return (Some (be, n, h))"
    and b: "broken s1 = (broken st \<or> n \<le> cur)" by auto
  have shift: "roundStart e cp cur (Suc j) (p, st) = roundStart e cp cur j (p1, s1)" for j
    using nr by simp
  define hit where "hit s j \<longleftrightarrow> (\<exists>q' st' be n h. roundStart e cp cur j s = Some (q', st')
        \<and> disagreement e cp q' (proposedBlockHash st') (Backends (backendGroup cp))
            = Return (Some (be, n, h))
        \<and> n \<le> cur)" for s j
  have ih: "broken st1 \<longleftrightarrow> broken s1 \<or> (\<exists>j<k. hit (p1, s1) j)"
    unfolding hit_def by (rule Suc.IH [OF rs])
  have zero: "hit (p, st) 0 \<longleftrightarrow> n \<le> cur"
    unfolding hit_def using d by simp
  have succ: "hit (p, st) (Suc j) \<longleftrightarrow> hit (p1, s1) j" for j
    unfolding hit_def shift ..
  have "broken st1 \<longleftrightarrow> broken st \<or> (\<exists>j<Suc k. hit (p, st) j)"
  proof
    assume "broken st1"
    then consider "broken st" | "n \<le> cur" | j where "j < k" "hit (p1, s1) j"
      using ih b by blast
    then show "broken st \<or> (\<exists>j<Suc k. hit (p, st) j)"
    proof cases
      case 1
      then show ?thesis by simp
    next
      case 2
      then have "hit (p, st) 0" using zero by simp
      then show ?thesis by blast
    next
      case 3
      then have "Suc j < Suc k" "hit (p, st) (Suc j)" using succ by simp_all
      then show ?thesis by blast
    qed
  next
    assume "broken st \<or> (\<exists>j<Suc k. hit (p, st) j)"
    then consider "broken st" | j where "j < Suc k" "hit (p, st) j" by blast
    then show "broken st1"
    proof cases
      case 1
      then show ?thesis using ih b by simp
    next
      case 2
      show ?thesis
      proof (cases j)
        case 0
        then have "n \<le> cur" using 2 zero by simp
        then show ?thesis using ih b by simp
      next
        case (Suc j')
        then have "j' < k" "hit (p1, s1) j'" using 2 succ by simp_all
        then show ?thesis using ih by blast
      qed
    qed
  qed
  then show ?case unfolding hit_def .
qed

lemma seekConsensus_broken:
  assumes "seekConsensus e cp cur p st = Some (Return (q, st'))"
  shows "broken st' \<longleftrightarrow> broken st \<or>
     (\<exists>k q' st1 be n h. roundStart e cp cur k (p, st) = Some (q', st1)
        \<and> disagreement e cp q' (proposedBlockHash st1) (Backends (backendGroup cp))
            = Return (Some (be, n, h))
        \<and> n \<le> cur)"
proof -
  from seekConsensus_rounds [OF assms] obtain k p' st1 where
    rs: "roundStart e cp cur k (p, st) = Some (p', st1)"
    and nr: "nextRound e cp cur (p', st1) = None"
    and last: "case checkBackends e cp cur p' (Backends (backendGroup cp))
                  (st1\<lparr>consensusBackends := []\<rparr>) of
             Panic \<Rightarrow> Return (q, st') = Panic
           | Return (ag, st'') \<Rightarrow> Return (q, st') = Return (p', st'')"
    by blast
  from last nr have "checkBackends e cp cur p' (Backends (backendGroup cp))
      (st1\<lparr>consensusBackends := []\<rparr>) = Return (True, st')"
    by (auto simp: nextRound_def split: exec.splits bool.splits)
  from round_agreed [OF this] have
    none: "disagreement e cp p' (proposedBlockHash st1) (Backends (backendGroup cp)) = Return None"
    and same: "broken st' = broken st1" by simp_all
  let ?hit = "\<lambda>j. \<exists>q' st2 be n h. roundStart e cp cur j (p, st) = Some (q', st2)
        \<and> disagreement e cp q' (proposedBlockHash st2) (Backends (backendGroup cp))
            = Return (Some (be, n, h))
        \<and> n \<le> cur"
  have "?hit j \<Longrightarrow> j < k" for j
  proof -
    assume h: "?hit j"
    then have "j \<le> k" using roundStart_last [OF rs nr] by blast
    moreover have "j \<noteq> k" using h rs none by auto
    ultimately show "j < k" by simp
  qed
  then have "(\<exists>j. ?hit j) \<longleftrightarrow> (\<exists>j<k. ?hit j)" by blast
  then show ?thesis using roundStart_broken [OF rs] same by simp
qed

lemma resolveFrom_broken:
  assumes "resolveFrom e cp H p ph = Some (Return (cp', b))"
  shows "b \<longleftrightarrow>
     (\<exists>k q st be n h. roundStart e cp H k (p, initialRound ph) = Some (q, st)
        \<and> disagreement e cp q (proposedBlockHash st) (Backends (backendGroup cp))
            = Return (Some (be, n, h))
        \<and> n \<le> H)"
proof -
  from assms obtain q st where
    s: "seekConsensus e cp H p (initialRound ph) = Some (Return (q, st))" and b: "b = broken st"
    by (auto simp: resolveFrom_def initialRound_def split: option.splits exec.splits)
  have "broken (initialRound ph) = False" by (simp add: initialRound_def)
  then show ?thesis using seekConsensus_broken [OF s] b by simp
qed

text \<open>
  C4, as the code has it. Take a cycle that gets past its baseline check, with baseline
  \<open>(p, ph)\<close> and \<open>p \<noteq> 0\<close>, and that returns; let \<open>H\<close> be the previously published
  height, the value of the tracker. The \<^verbatim>\<open>consensus broken\<close> event of that cycle is
  logged exactly when, in some round of its loop, the backend at which the round breaks
  (the first live backend whose answer differs from the proposal) answered with a fetched
  height \<open>n \<le> H\<close>. The height proposed in that round is not compared with \<open>H\<close>.
\<close>

theorem broken_consensus_iff_fetched_height:
  assumes "UpdateBackendGroupConsensus e cp = Some (Return (cp', b))"
    and "lowestBlockScan cp (Backends (backendGroup cp)) (0, []) = Return (p, ph)"
    and "p \<noteq> 0"
  shows "b \<longleftrightarrow>
     (\<exists>k q st be n h. roundStart e cp (tracker cp) k (p, initialRound ph) = Some (q, st)
        \<and> disagreement e cp q (proposedBlockHash st) (Backends (backendGroup cp))
            = Return (Some (be, n, h))
        \<and> n \<le> tracker cp)"
proof -
  from assms have "resolveFrom e cp (tracker cp) p ph = Some (Return (cp', b))"
    by (simp add: UpdateBackendGroupConsensus_def GetConsensusBlockNumber_def
        tracker_GetConsensusBlockNumber_def)
  then show ?thesis by (rule resolveFrom_broken)
qed

lemma stray_disagreement5:
  assumes "DecodeUint64 number = Some n"
  shows "disagreement (strayEnv number) (strayPoller height) 5 ''0xaa'' [0]
           = Return (Some (0, n, ''0xff''))"
  by (simp add: stray_isFiltered stray_fetch5 assms Let_def)

lemma stray_disagreement4:
  "disagreement (strayEnv number) (strayPoller height) 4 [] [0] = Return None"
  by (simp add: stray_isFiltered stray_fetch4 Let_def)

theorem broken_consensus_iff_fetched_height_witness:
  "UpdateBackendGroupConsensus (strayEnv ''0x2'') (strayPoller 3) =
     Some (Return ((strayPoller 3)\<lparr>consensusGroup := [0], tracker := 4\<rparr>, True))
   \<and> lowestBlockScan (strayPoller 3) (Backends (backendGroup (strayPoller 3))) (0, [])
       = Return (5, ''0xaa'')
   \<and> (\<exists>k q st be n h.
         roundStart (strayEnv ''0x2'') (strayPoller 3) (tracker (strayPoller 3)) k
             (5, initialRound ''0xaa'') = Some (q, st)
         \<and> disagreement (strayEnv ''0x2'') (strayPoller 3) q (proposedBlockHash st)
              (Backends (backendGroup (strayPoller 3))) = Return (Some (be, n, h))
         \<and> n \<le> tracker (strayPoller 3))
   \<and> tracker (strayPoller 3) = 3
   \<and> disagreement (strayEnv ''0x2'') (strayPoller 3) 5 ''0xaa'' [0] = Return (Some (0, 2, ''0xff''))"
proof -
  have c: "UpdateBackendGroupConsensus (strayEnv ''0x2'') (strayPoller 3) =
     Some (Return ((strayPoller 3)\<lparr>consensusGroup := [0], tracker := 4\<rparr>, True))"
    using stray_cycle [OF DecodeUint64_small(2), of 3] by simp
  have nz: "(5::uint64) \<noteq> 0" by simp
  have tr: "tracker (strayPoller 3) = 3" by (simp add: strayPoller_def poller_simps)
  have "\<exists>k q st be n h.
         roundStart (strayEnv ''0x2'') (strayPoller 3) (tracker (strayPoller 3)) k
             (5, initialRound ''0xaa'') = Some (q, st)
         \<and> disagreement (strayEnv ''0x2'') (strayPoller 3) q (proposedBlockHash st)
              (Backends (backendGroup (strayPoller 3))) = Return (Some (be, n, h))
         \<and> n \<le> tracker (strayPoller 3)"
    using broken_consensus_iff_fetched_height [OF c stray_scan nz] by simp
  then show ?thesis
    using c tr stray_scan [of 3] stray_disagreement5 [OF DecodeUint64_small(2), of 3]
    by simp
qed

text \<open>
  C4, as claimed in terms of the proposed height, fails in both directions. With
  \<open>H = 10\<close>, the live backend disagrees in the round that proposes block 5, which is not
  above \<open>H\<close>, but it answers with block 20 and no event is logged. With \<open>H = 3\<close>, the only
  disagreement is in the round that proposes block 5, above \<open>H\<close> (the round for block 4
  agrees), but the backend answers with block 2 and the event is logged.
\<close>

theorem broken_consensus_counterexample:
  "tracker (strayPoller 10) = 10
   \<and> roundStart (strayEnv ''0x14'') (strayPoller 10) 10 0 (5, initialRound ''0xaa'')
       = Some (5, initialRound ''0xaa'')
   \<and> isFiltered (strayEnv ''0x14'') (strayPoller 10) 0 = Return False
   \<and> disagreement (strayEnv ''0x14'') (strayPoller 10) 5 ''0xaa'' [0]
       = Return (Some (0, 20, ''0xff''))
   \<and> (5::uint64) \<le> 10
   \<and> UpdateBackendGroupConsensus (strayEnv ''0x14'') (strayPoller 10) =
       Some (Return ((strayPoller 10)\<lparr>consensusGroup := [0], tracker := 4\<rparr>, False))
   \<and> tracker (strayPoller 3) = 3
   \<and> disagreement (strayEnv ''0x2'') (strayPoller 3) 5 ''0xaa'' [0]
       = Return (Some (0, 2, ''0xff''))
   \<and> disagreement (strayEnv ''0x2'') (strayPoller 3) 4 [] [0] = Return None
   \<and> (3::uint64) < 4
   \<and> UpdateBackendGroupConsensus (strayEnv ''0x2'') (strayPoller 3) =
       Some (Return ((strayPoller 3)\<lparr>consensusGroup := [0], tracker := 4\<rparr>, True))"
proof -
  have "tracker (strayPoller 10) = 10" "tracker (strayPoller 3) = 3"
    by (simp_all add: strayPoller_def poller_simps)
  moreover have "UpdateBackendGroupConsensus (strayEnv ''0x14'') (strayPoller 10) =
       Some (Return ((strayPoller 10)\<lparr>consensusGroup := [0], tracker := 4\<rparr>, False))"
    using stray_cycle [OF DecodeUint64_small(1), of 10] by simp
  moreover have "UpdateBackendGroupConsensus (strayEnv ''0x2'') (strayPoller 3) =
       Some (Return ((strayPoller 3)\<lparr>consensusGroup := [0], tracker := 4\<rparr>, True))"
    using stray_cycle [OF DecodeUint64_small(2), of 3] by simp
  ultimately show ?thesis
    using stray_disagreement5 [OF DecodeUint64_small(1), of 10]
      stray_disagreement5 [OF DecodeUint64_small(2), of 3]
      stray_disagreement4 [of "''0x2''" 3] stray_isFiltered [of "''0x14''" 10]
    by simp
qed

subsection \<open>Termination of the loop\<close>

lemma forked_fetch:
  "fetchBlock forkedEnv 0 (EncodeUint64 p) = Return (Inr (p, ''0xaa''))"
  "fetchBlock forkedEnv 2 (EncodeUint64 p) = Return (Inr (p, ''0xbb''))"
  by (rule fetchBlock_echo, simp add: forkedEnv_def healthy_simps)+

lemma forked_isFiltered:
  "isFiltered forkedEnv forkedPoller 0 = Return False"
  "isFiltered forkedEnv forkedPoller 2 = Return False"
  by (simp_all add: isFiltered_def forkedEnv_def forkedPoller_def healthy_simps poller_simps
      stateAt_def)

lemma forked_pool: "Backends (backendGroup forkedPoller) = [0, 2]"
  by (simp add: forkedPoller_def poller_simps)

text \<open>Whatever block and hash are proposed, one of the two backends answers otherwise.\<close>

lemma forked_disagreement:
  "\<exists>be n h. disagreement forkedEnv forkedPoller p ph [0, 2] = Return (Some (be, n, h))"
  by (simp add: forked_isFiltered forked_fetch Let_def)

lemma forked_nextRound: "nextRound forkedEnv forkedPoller cur (p, st) \<noteq> None"
proof -
  let ?st = "st\<lparr>consensusBackends := []\<rparr>"
  from forked_disagreement [of p "proposedBlockHash ?st"] obtain be n h where
    "disagreement forkedEnv forkedPoller p (proposedBlockHash ?st) [0, 2] = Return (Some (be, n, h))"
    by blast
  with checkBackends_disagreement [of forkedEnv forkedPoller p ?st "[0, 2]" cur]
  obtain st' where "checkBackends forkedEnv forkedPoller cur p [0, 2] ?st = Return (False, st')"
    by blast
  then show ?thesis by (simp add: nextRound_def forked_pool del: checkBackends.simps)
qed

lemma forked_scan:
  "lowestBlockScan forkedPoller [0, 2] (0, []) = Return (1, ''0xaa'')"
  by (simp add: forkedPoller_def poller_simps getBackendState_def stateAt_def)

lemma forked_rounds:
  "nextRound forkedEnv forkedPoller 0 (1, initialRound ''0xaa'')
     = Some (0, \<lparr>proposedBlockHash = [], broken = False, consensusBackends = [0]\<rparr>)"
  "nextRound forkedEnv forkedPoller 0
       (0, \<lparr>proposedBlockHash = [], broken = False, consensusBackends = [0]\<rparr>)
     = Some (0xFFFFFFFFFFFFFFFF, \<lparr>proposedBlockHash = [], broken = True, consensusBackends = [0]\<rparr>)"
  by (simp_all add: nextRound_def forked_pool initialRound_def forked_isFiltered forked_fetch Let_def)

text \<open>
  C9. The loop is claimed to terminate for every snapshot, going down by one block per
  failed round and never up. Two live backends on different chains, which answer every
  query with the requested block but never with the same hash, make every round fail:
  the cycle never returns. After the round for block 0 the 64-bit subtraction wraps and
  the next proposed block is \<open>2 ^ 64 - 1\<close>.
\<close>

theorem walk_back_never_returns:
  "UpdateBackendGroupConsensus forkedEnv forkedPoller = None
   \<and> map_option fst (roundStart forkedEnv forkedPoller 0 (Suc (Suc 0)) (1, initialRound ''0xaa''))
       = Some 0xFFFFFFFFFFFFFFFF
   \<and> unat (0xFFFFFFFFFFFFFFFF :: uint64) = 18446744073709551615"
proof -
  have "seekConsensus forkedEnv forkedPoller cur p st = None" for cur p st
    by (rule seekConsensus_diverges) (rule forked_nextRound)
  then have "UpdateBackendGroupConsensus forkedEnv forkedPoller = None"
    by (simp add: UpdateBackendGroupConsensus_def forked_pool forked_scan resolveFrom_def
        del: lowestBlockScan.simps)
  moreover have "map_option fst
      (roundStart forkedEnv forkedPoller 0 (Suc (Suc 0)) (1, initialRound ''0xaa''))
       = Some 0xFFFFFFFFFFFFFFFF"
    by (simp add: forked_rounds)
  ultimately show ?thesis by simp
qed

end
